theory Spec2Isabelle
  imports Main "HOL-Library.Sublist" "HOL-Library.AList"
begin

section \<open>Python values used by \<open>readxl.py\<close>\<close>

text \<open>
  Decoded text is a \<open>string\<close>, one \<open>char\<close> per code point; the embedding covers the
  texts whose code points lie below 256. Exceptions are values of \<open>error\<close>, and a function
  that may raise returns \<open>error + 'a\<close> with \<open>Inl\<close> for the exception. The payload of
  \<open>ValueError\<close> is the message (for \<open>int()\<close> the message prefix followed by the
  offending token), the payload of a \<open>KeyError\<close> is the missing key.
\<close>

datatype error =
    ValueError string
  | IndexError
  | KeyError string
  | KeyError_int int
  | BadZipFile

definition newline :: char where
  "newline = CHR 0x0A"

definition dquote :: char where
  "dquote = CHR 0x22"

text \<open>\<open>xs[i]\<close> for a non-negative index: out of range raises \<open>IndexError\<close>.\<close>

definition getitem :: "'a list \<Rightarrow> nat \<Rightarrow> error + 'a" where
  "getitem xs i = (if i < length xs then Inr (xs ! i) else Inl IndexError)"

text \<open>\<open>xs.index(x)\<close>: the first position of \<open>x\<close>, \<open>None\<close> where Python raises
  \<open>ValueError\<close>.\<close>

fun list_index :: "'a list \<Rightarrow> 'a \<Rightarrow> nat option" where
  "list_index [] x = None"
| "list_index (y # ys) x = (if y = x then Some 0 else map_option Suc (list_index ys x))"

text \<open>\<open>xs.pop(i)\<close> for a non-negative index: the list without position \<open>i\<close>, or
  \<open>IndexError\<close> when \<open>i\<close> is out of range.\<close>

definition list_pop :: "'a list \<Rightarrow> nat \<Rightarrow> error + 'a list" where
  "list_pop xs i = (if i < length xs then Inr (take i xs @ drop (Suc i) xs) else Inl IndexError)"

text \<open>\<open>s.split(sep)\<close> and \<open>re.split\<close> on a literal pattern, for a non-empty separator:
  the pieces between the non-overlapping occurrences of \<open>sep\<close>, found left to right.
  (Python raises \<open>ValueError\<close> on an empty separator; every call site passes a literal.)\<close>

fun split :: "string \<Rightarrow> string \<Rightarrow> string list" where
  "split sep [] = [[]]"
| "split sep (c # cs) =
     (if sep \<noteq> [] \<and> prefix sep (c # cs) then [] # split sep (drop (length sep) (c # cs))
      else (case split sep cs of [] \<Rightarrow> [[c]] | x # xs \<Rightarrow> (c # x) # xs))"

section \<open>The regular expressions of the module\<close>

text \<open>
  The module compiles five patterns and never sets a flag, so \<open>.\<close> matches every
  character except the line feed. Each pattern is modelled by the function that computes
  what the source takes from it.
\<close>

text \<open>The group \<open>(.*)\<close> followed by the lookahead \<open>(?=cls)\<close>, tried at the start of
  \<open>s\<close>: the longest run of characters other than the line feed after which \<open>cls\<close>
  follows (the greedy star gives characters back until the lookahead holds).\<close>

fun greedy_until :: "string \<Rightarrow> string \<Rightarrow> string option" where
  "greedy_until cls [] = (if prefix cls [] then Some [] else None)"
| "greedy_until cls (c # cs) =
     (case (if c = newline then None else greedy_until cls cs) of
        Some m \<Rightarrow> Some (c # m)
      | None \<Rightarrow> if prefix cls (c # cs) then Some [] else None)"

text \<open>\<open>re.compile('(?<=opn)(.*)(?=cls)').findall(s)[0]\<close>: the match at the leftmost
  position that has \<open>opn\<close> right before it and admits a match; \<open>None\<close> where
  \<open>findall\<close> returns the empty list and the index \<open>[0]\<close> raises \<open>IndexError\<close>.\<close>

fun search_between :: "string \<Rightarrow> string \<Rightarrow> string \<Rightarrow> string option" where
  "search_between opn cls [] = (if prefix opn [] then greedy_until cls [] else None)"
| "search_between opn cls (c # cs) =
     (case (if prefix opn (c # cs) then greedy_until cls (drop (length opn) (c # cs)) else None) of
        Some m \<Rightarrow> Some m
      | None \<Rightarrow> search_between opn cls cs)"

text \<open>The group \<open>(.*?)\<close> followed by \<open>cls\<close>, tried at the start of \<open>s\<close>: the
  shortest run of characters other than the line feed after which \<open>cls\<close> follows.\<close>

fun lazy_until :: "string \<Rightarrow> string \<Rightarrow> string option" where
  "lazy_until cls [] = (if prefix cls [] then Some [] else None)"
| "lazy_until cls (c # cs) =
     (if prefix cls (c # cs) then Some []
      else if c = newline then None
      else map_option ((#) c) (lazy_until cls cs))"

text \<open>\<open>re.compile('opn(.*?)cls').findall(s)\<close> for non-empty literal tags: the groups of
  the non-overlapping matches, left to right; after a match the scan resumes behind it,
  after a failed attempt one character further.\<close>

function findall_lazy :: "string \<Rightarrow> string \<Rightarrow> string \<Rightarrow> string list" where
  "findall_lazy opn cls s =
     (if s = [] then []
      else (case (if opn \<noteq> [] \<and> prefix opn s then lazy_until cls (drop (length opn) s) else None) of
              Some m \<Rightarrow> m # findall_lazy opn cls (drop (length opn + length m + length cls) s)
            | None \<Rightarrow> findall_lazy opn cls (tl s)))"
  by pat_completeness auto
termination
  by (relation "measure (\<lambda>(opn, cls, s). length s)") (auto split: if_splits)

text \<open>\<open>re.compile('[^<r c="][^"]+').findall(s)[0]\<close>: the leftmost character outside
  the class followed by at least one character other than the double quote, extended over
  all characters up to the next double quote; \<open>None\<close> where the index raises.\<close>

fun search_cell_address :: "string \<Rightarrow> string option" where
  "search_cell_address (a # b # s) =
     (if a \<notin> set [CHR ''<'', CHR ''r'', CHR '' '', CHR ''c'', CHR ''='', dquote] \<and> b \<noteq> dquote
      then Some (a # b # takeWhile (\<lambda>c. c \<noteq> dquote) s)
      else search_cell_address (b # s))"
| "search_cell_address s = None"

section \<open>The built-in \<open>int()\<close> on a string\<close>

text \<open>
  \<open>int(s)\<close> in base ten (CPython 3.11 defaults): white space (tab, line feed, vertical
  tab, form feed, carriage return, space, next line, no-break space) is stripped at both
  ends, one sign may lead, then digits with single underscores between digits; more than
  4300 digits are refused. \<open>None\<close> where Python raises \<open>ValueError\<close>.
\<close>

definition py_isspace :: "char \<Rightarrow> bool" where
  "py_isspace c = (c \<in> set [CHR 0x09, CHR 0x0A, CHR 0x0B, CHR 0x0C, CHR 0x0D, CHR 0x20,
     CHR 0x85, CHR 0xA0])"

definition py_strip :: "string \<Rightarrow> string" where
  "py_strip s = rev (dropWhile py_isspace (rev (dropWhile py_isspace s)))"

definition is_digit :: "char \<Rightarrow> bool" where
  "is_digit c = (c \<in> set ''0123456789'')"

definition digit_val :: "char \<Rightarrow> nat" where
  "digit_val c = (case list_index ''0123456789'' c of Some d \<Rightarrow> d | None \<Rightarrow> 0)"

fun py_int_digits :: "bool \<Rightarrow> nat \<Rightarrow> string \<Rightarrow> nat option" where
  "py_int_digits after_digit acc [] = (if after_digit then Some acc else None)"
| "py_int_digits after_digit acc (c # cs) =
     (if is_digit c then py_int_digits True (acc * 10 + digit_val c) cs
      else if c = CHR ''_'' \<and> after_digit then py_int_digits False acc cs
      else None)"

definition int_max_str_digits :: nat where
  "int_max_str_digits = 4300"

definition py_int :: "string \<Rightarrow> int option" where
  "py_int s =
     (let t = py_strip s;
          negative = (t \<noteq> [] \<and> hd t = CHR ''-'');
          body = (if t \<noteq> [] \<and> (hd t = CHR ''-'' \<or> hd t = CHR ''+'') then tl t else t)
      in if int_max_str_digits < length (filter is_digit body) then None
         else map_option (\<lambda>n. if negative then - int n else int n) (py_int_digits False 0 body))"

section \<open>The files\<close>

text \<open>
  An opened archive is its \<open>NameToInfo\<close> dictionary: the member names in archive order,
  each with the decoded text that \<open>open(name).read().decode()\<close> yields. A path of the
  file system holds an archive, some other file, or nothing.
\<close>

type_synonym archive = "(string \<times> string) list"

datatype fs_entry = ZipFile archive | OtherFile

type_synonym filesystem = "string \<Rightarrow> fs_entry option"

definition zip_open :: "archive \<Rightarrow> string \<Rightarrow> error + string" where
  "zip_open f_zip name =
     (case map_of f_zip name of None \<Rightarrow> Inl (KeyError name) | Some text \<Rightarrow> Inr text)"

type_synonym shared_strings = "(int \<times> string) list"

type_synonym sheet_data = "(string \<times> string) list"

text \<open>Modelled from the spec: the class \<open>Database\<close> of the module \<open>database\<close>, which is
  not among the sources. The spec describes it as a mapping from sheet name to sheet grid,
  into which assembly inserts each grid keyed by the sheet's display name; it is a
  dictionary in insertion order here.\<close>

type_synonym database = "(string \<times> sheet_data) list"

definition Database :: database where
  "Database = []"

definition add_ws :: "database \<Rightarrow> string \<Rightarrow> sheet_data \<Rightarrow> database" where
  "add_ws db sheetname data = AList.update sheetname data db"

section \<open>\<open>check_excelfile\<close>\<close>

definition check_excelfile :: "filesystem \<Rightarrow> string \<Rightarrow> error + unit" where
  "check_excelfile fs fn =
     (if fs fn = None then Inl (ValueError (''Error - File ('' @ fn @ '') does not exit.''))
      else let extension = last (split ''.'' fn)
           in if extension \<notin> set [''xlsx'', ''xlsm'']
              then Inl (ValueError (''Error - Incorrect Excel file extension ('' @ extension @
                     ''). File extension supported: .xlsx .xlsm''))
              else Inr ())"

section \<open>\<open>get_sheetnames\<close>\<close>

text \<open>The loop over \<open>sheet_lines\<close>, appending \<open>sheet_line.split('"')[1]\<close>.\<close>

fun append_sheetnames :: "string list \<Rightarrow> string list \<Rightarrow> error + string list" where
  "append_sheetnames sheetnames [] = Inr sheetnames"
| "append_sheetnames sheetnames (sheet_line # sheet_lines) =
     (case getitem (split [dquote] sheet_line) 1 of
        Inl e \<Rightarrow> Inl e
      | Inr name \<Rightarrow> append_sheetnames (sheetnames @ [name]) sheet_lines)"

definition get_sheetnames :: "string \<Rightarrow> error + string list" where
  "get_sheetnames text =
     (case search_between ''<sheets>'' ''</sheets>'' text of
        None \<Rightarrow> Inl IndexError
      | Some sheet_section \<Rightarrow> append_sheetnames [] (butlast (split ''/>'' sheet_section)))"

section \<open>\<open>get_zipsheetnames\<close>\<close>

definition get_zipsheetnames :: "archive \<Rightarrow> string list" where
  "get_zipsheetnames zipfile = filter (\<lambda>name. sublist ''sheet'' name) (map fst zipfile)"

section \<open>\<open>get_sharedStrings\<close>\<close>

definition get_sharedStrings :: "string \<Rightarrow> shared_strings" where
  "get_sharedStrings text =
     fold (\<lambda>(i, val) sharedStrings. AList.update (int i) val sharedStrings)
       (List.enumerate 0 (findall_lazy ''<t>'' ''</t>'' text)) []"

section \<open>\<open>scrape_worksheetxml\<close>\<close>

text \<open>The body of the loop over \<open>tag_cr_lines\<close>: the address and the value of one cell.\<close>

definition scrape_cell :: "shared_strings \<Rightarrow> string \<Rightarrow> error + (string \<times> string)" where
  \<open>scrape_cell sharedString tag_cr_line =
     (case search_cell_address tag_cr_line of
        None \<Rightarrow> Inl IndexError
      | Some cell_address \<Rightarrow>
          let cell_string = sublist ''t="s"'' tag_cr_line
          in (case search_between ''<v>'' ''</v>'' tag_cr_line of
                None \<Rightarrow> Inl IndexError
              | Some cell_val \<Rightarrow>
                  if cell_string then
                    (case py_int cell_val of
                       None \<Rightarrow> Inl (ValueError (''invalid literal for int() with base 10: '' @ cell_val))
                     | Some i \<Rightarrow>
                         (case map_of sharedString i of
                            None \<Rightarrow> Inl (KeyError_int i)
                          | Some s \<Rightarrow> Inr (cell_address, s)))
                  else Inr (cell_address, cell_val)))\<close>

fun scrape_cells :: "shared_strings \<Rightarrow> sheet_data \<Rightarrow> string list \<Rightarrow> error + sheet_data" where
  "scrape_cells sharedString data [] = Inr data"
| "scrape_cells sharedString data (tag_cr_line # tag_cr_lines) =
     (case scrape_cell sharedString tag_cr_line of
        Inl e \<Rightarrow> Inl e
      | Inr (cell_address, cell_val) \<Rightarrow>
          scrape_cells sharedString (AList.update cell_address cell_val data) tag_cr_lines)"

definition scrape_worksheetxml :: "string \<Rightarrow> shared_strings option \<Rightarrow> error + sheet_data" where
  "scrape_worksheetxml text sharedString =
     (let sharedString = (case sharedString of None \<Rightarrow> [] | Some t \<Rightarrow> t)
      in case search_between ''<sheetData>'' ''</sheetData>'' text of
           None \<Rightarrow> Inl IndexError
         | Some sheetdata_section \<Rightarrow>
             scrape_cells sharedString [] (tl (split ''<c r='' sheetdata_section)))"

section \<open>\<open>readxl\<close>\<close>

text \<open>The function \<open>scrape\<close> comes from the module \<open>readxl_scrape\<close>, which is not among
  the sources: it is a parameter, given the text of a worksheet part and the shared
  strings.\<close>

type_synonym scraper = "string \<Rightarrow> shared_strings \<Rightarrow> error + sheet_data"

text \<open>The loop over the requested \<open>sheetnames\<close>: \<open>index\<close> on the declared names, then
  \<open>pop\<close> on the worksheet parts. Only the \<open>ValueError\<close> of \<open>index\<close> is caught and
  raised again with the module's message; the \<open>IndexError\<close> of \<open>pop\<close> passes.\<close>

fun pop_sheetnames :: "string list \<Rightarrow> string list \<Rightarrow> string list \<Rightarrow> error + string list" where
  "pop_sheetnames sh_names zip_sheetnames [] = Inr zip_sheetnames"
| "pop_sheetnames sh_names zip_sheetnames (sn # sheetnames) =
     (case list_index sh_names sn of
        None \<Rightarrow> Inl (ValueError (''Error - Sheetname ('' @ sn @ '') is not in the workbook.''))
      | Some pop_index \<Rightarrow>
          (case list_pop zip_sheetnames pop_index of
             Inl e \<Rightarrow> Inl e
           | Inr zip_sheetnames' \<Rightarrow> pop_sheetnames sh_names zip_sheetnames' sheetnames))"

text \<open>The loop over \<open>enumerate(zip_sheetnames)\<close>: the part is opened, \<open>sh_names[i]\<close> is
  evaluated, the part is scraped, and the grid is added under that name.\<close>

fun scrape_sheets ::
  "scraper \<Rightarrow> archive \<Rightarrow> shared_strings \<Rightarrow> string list \<Rightarrow> database \<Rightarrow> nat \<Rightarrow> string list
     \<Rightarrow> error + database" where
  "scrape_sheets scrape f_zip sharedString sh_names db i [] = Inr db"
| "scrape_sheets scrape f_zip sharedString sh_names db i (zip_sheetname # zip_sheetnames) =
     (case zip_open f_zip zip_sheetname of
        Inl e \<Rightarrow> Inl e
      | Inr text \<Rightarrow>
          (case getitem sh_names i of
             Inl e \<Rightarrow> Inl e
           | Inr sheetname \<Rightarrow>
               (case scrape text sharedString of
                  Inl e \<Rightarrow> Inl e
                | Inr data \<Rightarrow>
                    scrape_sheets scrape f_zip sharedString sh_names
                      (add_ws db sheetname data) (Suc i) zip_sheetnames)))"

text \<open>The statement that gets the table of shared strings: the part is read when its
  name is a key of \<open>NameToInfo\<close>, and the table is the empty dictionary otherwise.\<close>

definition read_sharedString :: "archive \<Rightarrow> error + shared_strings" where
  "read_sharedString f_zip =
     (if ''xl/sharedStrings.xml'' \<in> set (map fst f_zip)
      then (case zip_open f_zip ''xl/sharedStrings.xml'' of
              Inl e \<Rightarrow> Inl e
            | Inr text \<Rightarrow> Inr (get_sharedStrings text))
      else Inr [])"

text \<open>The body of \<open>with zipfile.ZipFile(fn, 'r') as f_zip\<close>.\<close>

definition readxl_zip :: "scraper \<Rightarrow> archive \<Rightarrow> string list \<Rightarrow> error + database" where
  "readxl_zip scrape f_zip sheetnames =
     (case zip_open f_zip ''xl/workbook.xml'' of
        Inl e \<Rightarrow> Inl e
      | Inr workbook \<Rightarrow>
     (case get_sheetnames workbook of
        Inl e \<Rightarrow> Inl e
      | Inr sh_names \<Rightarrow>
     (case (if sheetnames \<noteq> [] then pop_sheetnames sh_names (get_zipsheetnames f_zip) sheetnames
            else Inr (get_zipsheetnames f_zip)) of
        Inl e \<Rightarrow> Inl e
      | Inr zip_sheetnames \<Rightarrow>
     (case read_sharedString f_zip of
        Inl e \<Rightarrow> Inl e
      | Inr sharedString \<Rightarrow>
          scrape_sheets scrape f_zip sharedString sh_names Database 0 zip_sheetnames))))"

definition readxl :: "filesystem \<Rightarrow> scraper \<Rightarrow> string \<Rightarrow> string list \<Rightarrow> error + database" where
  "readxl fs scrape fn sheetnames =
     (case check_excelfile fs fn of
        Inl e \<Rightarrow> Inl e
      | Inr _ \<Rightarrow>
          (case fs fn of
             Some (ZipFile f_zip) \<Rightarrow> readxl_zip scrape f_zip sheetnames
           | _ \<Rightarrow> Inl BadZipFile))"

section \<open>The scraper of the module and example files\<close>

text \<open>The module's own scraper, passed to \<open>readxl\<close> for the absent \<open>scrape\<close>: it gets
  the table that \<open>readxl\<close> built.\<close>

definition scrape_xml :: scraper where
  "scrape_xml text sharedString = scrape_worksheetxml text (Some sharedString)"

text \<open>Workbook manifests declaring three, two and one sheet, and one whose elements stand
  on lines of their own.\<close>

definition workbook_of_3 :: string where
  \<open>workbook_of_3 = ''<workbook><sheets><sheet name="Sheet1" sheetId="1" r:id="rId1"/><sheet name="Sheet2" sheetId="2" r:id="rId2"/><sheet name="Sheet3" sheetId="3" r:id="rId3"/></sheets></workbook>''\<close>

definition workbook_of_2 :: string where
  \<open>workbook_of_2 = ''<workbook><sheets><sheet name="Sheet1" sheetId="1" r:id="rId1"/><sheet name="Sheet2" sheetId="2" r:id="rId2"/></sheets></workbook>''\<close>

definition workbook_of_1 :: string where
  \<open>workbook_of_1 = ''<workbook><sheets><sheet name="Sheet1" sheetId="1" r:id="rId1"/></sheets></workbook>''\<close>

definition workbook_on_lines :: string where
  \<open>workbook_on_lines = ''<workbook>\<newline><sheets>\<newline><sheet name="Sheet1" sheetId="1" r:id="rId1"/>\<newline></sheets>\<newline></workbook>''\<close>

text \<open>A worksheet part with one row of the given cells, three archives (three names and
  three parts, two names and one part, one name and two parts), and a file system that
  holds an archive at \<open>book.xlsx\<close>.\<close>

definition worksheet_of :: "string \<Rightarrow> string" where
  \<open>worksheet_of cells = ''<worksheet><sheetData><row r="1">'' @ cells @ ''</row></sheetData></worksheet>''\<close>

definition book_3_3 :: archive where
  \<open>book_3_3 = [(''xl/workbook.xml'', workbook_of_3),
     (''xl/worksheets/sheet1.xml'', worksheet_of ''<c r="A1"><v>1</v></c>''),
     (''xl/worksheets/sheet2.xml'', worksheet_of ''<c r="A1"><v>2</v></c>''),
     (''xl/worksheets/sheet3.xml'', worksheet_of ''<c r="A1"><v>3</v></c>'')]\<close>

definition book_2_1 :: archive where
  \<open>book_2_1 = [(''xl/workbook.xml'', workbook_of_2),
     (''xl/worksheets/sheet1.xml'', worksheet_of ''<c r="A1"><v>1</v></c>'')]\<close>

definition book_1_2 :: archive where
  \<open>book_1_2 = [(''xl/workbook.xml'', workbook_of_1),
     (''xl/worksheets/sheet1.xml'', worksheet_of ''<c r="A1"><v>1</v></c>''),
     (''xl/worksheets/sheet2.xml'', worksheet_of ''<c r="A1"><v>2</v></c>'')]\<close>

definition disk :: "archive \<Rightarrow> filesystem" where
  "disk f_zip = (\<lambda>fn. if fn = ''book.xlsx'' then Some (ZipFile f_zip) else None)"

text \<open>Shared-strings parts: two strings on one line, and one whose first string holds a
  line feed.\<close>

definition shared_strings_xml :: string where
  \<open>shared_strings_xml = ''<sst count="2" uniqueCount="2"><si><t>Alice</t></si><si><t>Bob</t></si></sst>''\<close>

definition shared_strings_on_lines :: string where
  \<open>shared_strings_on_lines = ''<sst count="2" uniqueCount="2"><si><t>a\<newline>b</t></si><si><t>c</t></si></sst>''\<close>

text \<open>Two tables of shared strings.\<close>

definition names_table :: shared_strings where
  "names_table = [(0, ''Alice''), (1, ''Bob'')]"

definition letters_table :: shared_strings where
  "letters_table = [(0, ''a''), (1, ''b''), (2, ''c'')]"



text \<open>The relationships part of a worksheet, and an archive that holds it behind its two
  worksheet parts.\<close>

definition rels_xml :: string where
  \<open>rels_xml = ''<Relationships><Relationship Id="rId1" Target="../drawings/drawing1.xml"/></Relationships>''\<close>

definition book_rels :: archive where
  \<open>book_rels = [(''xl/workbook.xml'', workbook_of_2),
     (''xl/worksheets/sheet1.xml'', worksheet_of ''<c r="A1"><v>1</v></c>''),
     (''xl/worksheets/sheet2.xml'', worksheet_of ''<c r="A1"><v>2</v></c>''),
     (''xl/worksheets/_rels/sheet1.xml.rels'', rels_xml)]\<close>

text \<open>The cell address in the spec's words (4.4, step 3a): the first quoted token of the
  fragment that follows the split point, that is, the value of the attribute \<open>r\<close>. It is
  compared with \<open>search_cell_address\<close>, which is what the code takes.\<close>

definition spec_cell_address :: "string \<Rightarrow> string option" where
  "spec_cell_address frag =
     (case split [dquote] frag of
        before # address # rest \<Rightarrow> if rest \<noteq> [] then Some address else None
      | _ \<Rightarrow> None)"

text \<open>A fragment that starts with its quoted address, the address having at least two
  characters and a first character outside the class of the code's pattern (every address
  of a column letter and a row number is of this kind).\<close>

definition well_formed_cell :: "string \<Rightarrow> bool" where
  "well_formed_cell frag =
     (case frag of
        q # a # b # rest \<Rightarrow>
          q = dquote \<and> a \<notin> set [CHR ''<'', CHR ''r'', CHR '' '', CHR ''c'', CHR ''='', dquote] \<and>
          b \<noteq> dquote \<and> dquote \<in> set rest
      | _ \<Rightarrow> False)"


text \<open>A sheet declaration up to its terminator \<open>/>\<close>: some text without a double
  quote, the quoted name, and the rest.\<close>

definition sheet_line :: "string \<times> string \<times> string \<Rightarrow> string" where
  "sheet_line d = (case d of (a, name, b) \<Rightarrow> a @ dquote # name @ dquote # b)"

section \<open>The loop of \<open>scrape_worksheetxml\<close>\<close>

lemma scrape_cell_address:
  "scrape_cell sharedString frag = Inr (a, v) \<Longrightarrow> search_cell_address frag = Some a"
  by (auto simp: scrape_cell_def Let_def split: option.splits if_splits)

lemma scrape_cell_value:
  assumes "scrape_cell sharedString frag = Inr (a, v)"
  shows \<open>\<exists>tok. search_between ''<v>'' ''</v>'' frag = Some tok \<and>
           (if sublist ''t="s"'' frag
            then \<exists>i. py_int tok = Some i \<and> map_of sharedString i = Some v
            else v = tok)\<close>
  using assms by (auto simp: scrape_cell_def Let_def split: option.splits if_splits)

lemma scrape_cells_all_ok:
  "scrape_cells sharedString data frags = Inr data' \<Longrightarrow> frag \<in> set frags \<Longrightarrow>
   \<exists>a v. scrape_cell sharedString frag = Inr (a, v)"
  by (induction frags arbitrary: data) (auto split: sum.splits)

lemma scrape_cells_keys:
  "scrape_cells sharedString data frags = Inr data' \<Longrightarrow>
   fst ` set data' = fst ` set data \<union> {a. \<exists>frag \<in> set frags. \<exists>v. scrape_cell sharedString frag = Inr (a, v)}"
proof (induction frags arbitrary: data)
  case Nil
  then show ?case by simp
next
  case (Cons frag frags)
  then obtain a v where c: "scrape_cell sharedString frag = Inr (a, v)"
    and r: "scrape_cells sharedString (AList.update a v data) frags = Inr data'"
    by (auto split: sum.splits)
  from Cons.IH [OF r] c show ?case
    by (auto simp: AList.dom_update)
qed

lemma scrape_cells_distinct:
  "scrape_cells sharedString data frags = Inr data' \<Longrightarrow> distinct (map fst data) \<Longrightarrow>
   distinct (map fst data')"
  by (induction frags arbitrary: data) (auto split: sum.splits simp: AList.distinct_update)

lemma scrape_cells_keep:
  "scrape_cells sharedString data frags = Inr data' \<Longrightarrow>
   \<forall>frag \<in> set frags. \<forall>v. scrape_cell sharedString frag \<noteq> Inr (a, v) \<Longrightarrow>
   map_of data' a = map_of data a"
proof (induction frags arbitrary: data)
  case Nil
  then show ?case by simp
next
  case (Cons frag frags)
  then obtain b w where c: "scrape_cell sharedString frag = Inr (b, w)"
    and r: "scrape_cells sharedString (AList.update b w data) frags = Inr data'"
    by (auto split: sum.splits)
  from Cons.prems(2) c have "b \<noteq> a" by auto
  moreover from Cons.IH [OF r] Cons.prems(2)
  have "map_of data' a = map_of (AList.update b w data) a" by simp
  ultimately show ?case by (simp add: AList.update_conv')
qed

lemma scrape_cells_last_wins:
  "scrape_cells sharedString data (pre @ frag # post) = Inr data' \<Longrightarrow>
   scrape_cell sharedString frag = Inr (a, v) \<Longrightarrow>
   \<forall>f \<in> set post. \<forall>w. scrape_cell sharedString f \<noteq> Inr (a, w) \<Longrightarrow>
   map_of data' a = Some v"
proof (induction pre arbitrary: data)
  case Nil
  then have r: "scrape_cells sharedString (AList.update a v data) post = Inr data'"
    by simp
  from scrape_cells_keep [OF r Nil.prems(3)] show ?case
    by (simp add: AList.update_conv')
next
  case (Cons p pre)
  then show ?case by (auto split: sum.splits)
qed

lemma scrape_cells_origin:
  "scrape_cells sharedString data frags = Inr data' \<Longrightarrow> (a, v) \<in> set data' \<Longrightarrow>
   distinct (map fst data) \<Longrightarrow>
   (a, v) \<in> set data \<or> (\<exists>frag \<in> set frags. scrape_cell sharedString frag = Inr (a, v))"
proof (induction frags arbitrary: data)
  case Nil
  then show ?case by simp
next
  case (Cons frag frags)
  then obtain b w where c: "scrape_cell sharedString frag = Inr (b, w)"
    and r: "scrape_cells sharedString (AList.update b w data) frags = Inr data'"
    by (auto split: sum.splits)
  have d: "distinct (map fst (AList.update b w data))"
    using Cons.prems(3) by (simp add: AList.distinct_update)
  from Cons.IH [OF r Cons.prems(2) d]
  consider "(a, v) \<in> set (AList.update b w data)"
    | "\<exists>frag \<in> set frags. scrape_cell sharedString frag = Inr (a, v)" by blast
  then show ?case
  proof cases
    case 1
    then have "map_of (AList.update b w data) a = Some v"
      using d by simp
    then have "(if a = b then Some w else map_of data a) = Some v"
      by (simp add: AList.update_conv')
    then show ?thesis using c by (auto split: if_splits dest: map_of_SomeD)
  next
    case 2
    then show ?thesis by auto
  qed
qed

lemma scrape_cells_fail_any:
  "frag \<in> set frags \<Longrightarrow> scrape_cell sharedString frag = Inl e \<Longrightarrow>
   \<exists>e'. scrape_cells sharedString data frags = Inl e'"
  by (induction frags arbitrary: data) (auto split: sum.splits)

lemma scrape_cells_fail_first:
  "\<forall>f \<in> set pre. \<exists>kv. scrape_cell sharedString f = Inr kv \<Longrightarrow>
   scrape_cell sharedString frag = Inl e \<Longrightarrow>
   scrape_cells sharedString data (pre @ frag # post) = Inl e"
  by (induction pre arbitrary: data) (auto split: sum.splits)

section \<open>The archive and the loops of \<open>readxl\<close>\<close>


lemma zip_open_key:
  "name \<in> fst ` set f_zip \<Longrightarrow> \<exists>text. zip_open f_zip name = Inr text \<and> (name, text) \<in> set f_zip"
  by (cases "map_of f_zip name") (auto simp: zip_open_def map_of_eq_None_iff dest: map_of_SomeD)

lemma zip_open_member:
  "zip_open f_zip name = Inr text \<Longrightarrow> (name, text) \<in> set f_zip"
  by (auto simp: zip_open_def split: option.splits dest: map_of_SomeD)

lemma get_zipsheetnames_keys:
  "z \<in> set (get_zipsheetnames f_zip) \<Longrightarrow> z \<in> fst ` set f_zip \<and> sublist ''sheet'' z"
  by (auto simp: get_zipsheetnames_def)

lemma list_pop_subset:
  "list_pop xs i = Inr ys \<Longrightarrow> set ys \<subseteq> set xs"
  by (auto simp: list_pop_def split: if_splits dest: in_set_takeD in_set_dropD)

lemma pop_sheetnames_subset:
  "pop_sheetnames sh_names zips sheetnames = Inr zs \<Longrightarrow> set zs \<subseteq> set zips"
proof (induction sheetnames arbitrary: zips)
  case Nil
  then show ?case by simp
next
  case (Cons sn sheetnames)
  then obtain i zips' where p: "list_pop zips i = Inr zips'"
    and r: "pop_sheetnames sh_names zips' sheetnames = Inr zs"
    by (auto split: option.splits sum.splits)
  from Cons.IH [OF r] list_pop_subset [OF p] show ?case by blast
qed

lemma scrape_sheets_cong:
  "\<forall>z \<in> set zips. \<forall>text. zip_open f_zip z = Inr text \<longrightarrow> scrape text = scrape' text \<Longrightarrow>
   scrape_sheets scrape f_zip sharedString sh_names db i zips =
   scrape_sheets scrape' f_zip sharedString sh_names db i zips"
  by (induction zips arbitrary: db i) (auto split: sum.splits)

lemma scrape_sheets_ok:
  "\<forall>z \<in> set zips. \<exists>text data. zip_open f_zip z = Inr text \<and> scrape text sharedString = Inr data \<Longrightarrow>
   i + length zips \<le> length sh_names \<Longrightarrow>
   \<exists>db'. scrape_sheets scrape f_zip sharedString sh_names db i zips = Inr db' \<and>
     fst ` set db' = fst ` set db \<union> set (take (length zips) (drop i sh_names))"
proof (induction zips arbitrary: db i)
  case Nil
  then show ?case by simp
next
  case (Cons z zips)
  from Cons.prems(1) obtain part data where
    o: "zip_open f_zip z = Inr part" and s: "scrape part sharedString = Inr data" by auto
  from Cons.prems(2) have i: "i < length sh_names" by simp
  from Cons.prems have "\<exists>db'. scrape_sheets scrape f_zip sharedString sh_names
        (add_ws db (sh_names ! i) data) (Suc i) zips = Inr db' \<and>
     fst ` set db' = fst ` set (add_ws db (sh_names ! i) data) \<union>
        set (take (length zips) (drop (Suc i) sh_names))"
    by (intro Cons.IH) auto
  then obtain db' where
    r: "scrape_sheets scrape f_zip sharedString sh_names (add_ws db (sh_names ! i) data) (Suc i) zips = Inr db'"
    and k: "fst ` set db' = fst ` set (add_ws db (sh_names ! i) data) \<union>
        set (take (length zips) (drop (Suc i) sh_names))" by blast
  have "drop i sh_names = sh_names ! i # drop (Suc i) sh_names"
    using i by (simp add: Cons_nth_drop_Suc)
  with k have "fst ` set db' = fst ` set db \<union> set (take (length (z # zips)) (drop i sh_names))"
    by (simp add: add_ws_def AList.dom_update)
  with o s i r show ?case by (simp add: getitem_def)
qed

lemma scrape_sheets_names_run_out:
  "\<forall>z \<in> set (take (length sh_names - i) zips).
      \<exists>text data. zip_open f_zip z = Inr text \<and> scrape text sharedString = Inr data \<Longrightarrow>
   set zips \<subseteq> fst ` set f_zip \<Longrightarrow>
   length sh_names < i + length zips \<Longrightarrow> i \<le> length sh_names \<Longrightarrow>
   scrape_sheets scrape f_zip sharedString sh_names db i zips = Inl IndexError"
proof (induction zips arbitrary: db i)
  case Nil
  then show ?case by simp
next
  case (Cons z zips)
  from Cons.prems(2) zip_open_key [of z f_zip] obtain part where
    o: "zip_open f_zip z = Inr part" by auto
  show ?case
  proof (cases "i < length sh_names")
    case False
    with o show ?thesis by (simp add: getitem_def)
  next
    case True
    then have t: "take (length sh_names - i) (z # zips) = z # take (length sh_names - Suc i) zips"
    proof -
      from True have "length sh_names - i = Suc (length sh_names - Suc i)" by simp
      then show ?thesis by simp
    qed
    with Cons.prems(1) o obtain data where s: "scrape part sharedString = Inr data" by auto
    from Cons.prems(1) t
    have p1: "\<forall>z \<in> set (take (length sh_names - Suc i) zips).
      \<exists>text data. zip_open f_zip z = Inr text \<and> scrape text sharedString = Inr data"
      by simp
    from Cons.prems(2) have p2: "set zips \<subseteq> fst ` set f_zip" by simp
    from Cons.prems(3) have p3: "length sh_names < Suc i + length zips" by simp
    from True have p4: "Suc i \<le> length sh_names" by simp
    have "scrape_sheets scrape f_zip sharedString sh_names (add_ws db (sh_names ! i) data) (Suc i) zips
       = Inl IndexError"
      by (rule Cons.IH [OF p1 p2 p3 p4])
    with o s True show ?thesis by (simp add: getitem_def)
  qed
qed

section \<open>The table of shared strings\<close>

text \<open>The table pairs each match of the pattern with its rank, and \<open>readxl\<close> always gets
  a table: the empty one when the archive has no shared-strings part.\<close>

lemma update_fresh: "k \<notin> fst ` set al \<Longrightarrow> AList.update k v al = al @ [(k, v)]"
  by (induction al) auto

lemma fold_update_enumerate:
  "\<forall>k \<in> fst ` set acc. k < int n \<Longrightarrow>
   fold (\<lambda>(i, val) sharedStrings. AList.update (int i) val sharedStrings) (List.enumerate n vals) acc
     = acc @ map (\<lambda>(i, val). (int i, val)) (List.enumerate n vals)"
proof (induction vals arbitrary: n acc)
  case Nil
  then show ?case by simp
next
  case (Cons v vals)
  have fresh: "int n \<notin> fst ` set acc" using Cons.prems by auto
  have "\<forall>k \<in> fst ` set (acc @ [(int n, v)]). k < int (Suc n)"
    using Cons.prems by auto
  from Cons.IH [OF this] fresh show ?case
    by (simp add: update_fresh)
qed


lemma get_sharedStrings_rank:
  "get_sharedStrings text =
     map (\<lambda>(i, val). (int i, val)) (List.enumerate 0 (findall_lazy ''<t>'' ''</t>'' text))"
proof -
  have "\<forall>k \<in> fst ` set ([] :: shared_strings). k < int 0" by simp
  from fold_update_enumerate [OF this] show ?thesis
    unfolding get_sharedStrings_def by simp
qed

lemma get_sharedStrings_keys:
  "map fst (get_sharedStrings text) = map int [0..<length (findall_lazy ''<t>'' ''</t>'' text)]"
proof -
  have h: "map fst (map (\<lambda>(i, val). (int i, val)) zs) = map int (map fst zs)"
    for zs :: "(nat \<times> string) list"
    by (induction zs) auto
  have e: "map fst (List.enumerate 0 vals) = [0..<length vals]" for vals :: "string list"
    by (simp add: enumerate_eq_zip)
  show ?thesis
    unfolding get_sharedStrings_rank h e ..
qed

lemma read_sharedString_absent:
  "''xl/sharedStrings.xml'' \<notin> fst ` set f_zip \<Longrightarrow> read_sharedString f_zip = Inr []"
  by (simp add: read_sharedString_def)

lemma read_sharedString_total:
  "\<exists>sharedString. read_sharedString f_zip = Inr sharedString"
proof (cases "''xl/sharedStrings.xml'' \<in> fst ` set f_zip")
  case True
  from zip_open_key [OF True] obtain part where
    "zip_open f_zip ''xl/sharedStrings.xml'' = Inr part" by blast
  with True show ?thesis by (simp add: read_sharedString_def)
next
  case False
  then show ?thesis by (simp add: read_sharedString_def)
qed


section \<open>The requested names and the declared names\<close>

text \<open>A requested name that the manifest does not declare ends the read with an error (the
  module's \<open>ValueError\<close> when it is the first requested name); with no requested names,
  as many parts as names and every part scraped, the database has the declared names as
  its keys.\<close>

lemma list_index_None: "list_index xs x = None \<longleftrightarrow> x \<notin> set xs"
  by (induction xs) auto

lemma pop_sheetnames_missing:
  "sn \<in> set sheetnames \<Longrightarrow> sn \<notin> set sh_names \<Longrightarrow>
   \<exists>e. pop_sheetnames sh_names zips sheetnames = Inl e"
proof (induction sheetnames arbitrary: zips)
  case Nil
  then show ?case by simp
next
  case (Cons x sheetnames)
  show ?case
  proof (cases "list_index sh_names x")
    case None
    then show ?thesis by simp
  next
    case (Some i)
    then have "x \<noteq> sn" using Cons.prems(2) list_index_None [of sh_names x] by auto
    with Cons.prems(1) have "sn \<in> set sheetnames" by simp
    from Cons.IH [OF this Cons.prems(2)] Some show ?thesis
      by (cases "list_pop zips i") auto
  qed
qed

lemma pop_sheetnames_first_missing:
  "sn \<notin> set sh_names \<Longrightarrow>
   pop_sheetnames sh_names zips (sn # sheetnames) =
     Inl (ValueError (''Error - Sheetname ('' @ sn @ '') is not in the workbook.''))"
  using list_index_None [of sh_names sn] by simp

lemma readxl_zip_missing_name:
  "zip_open f_zip ''xl/workbook.xml'' = Inr workbook \<Longrightarrow>
   get_sheetnames workbook = Inr sh_names \<Longrightarrow>
   sn \<in> set sheetnames \<Longrightarrow> sn \<notin> set sh_names \<Longrightarrow>
   \<exists>e. readxl_zip scrape f_zip sheetnames = Inl e"
  using pop_sheetnames_missing [of sn sheetnames sh_names "get_zipsheetnames f_zip"]
  by (auto simp: readxl_zip_def)

lemma readxl_zip_all_sheets:
  assumes "zip_open f_zip ''xl/workbook.xml'' = Inr workbook"
    and "get_sheetnames workbook = Inr sh_names"
    and "read_sharedString f_zip = Inr sharedString"
    and "length (get_zipsheetnames f_zip) = length sh_names"
    and "\<forall>z \<in> set (get_zipsheetnames f_zip).
          \<exists>part data. zip_open f_zip z = Inr part \<and> scrape part sharedString = Inr data"
  shows "\<exists>db. readxl_zip scrape f_zip [] = Inr db \<and> fst ` set db = set sh_names"
proof -
  have "readxl_zip scrape f_zip [] =
     scrape_sheets scrape f_zip sharedString sh_names Database 0 (get_zipsheetnames f_zip)"
    using assms(1-3) by (simp add: readxl_zip_def)
  with scrape_sheets_ok [of "get_zipsheetnames f_zip" f_zip scrape sharedString 0 sh_names Database]
    assms(4,5)
  show ?thesis by (simp add: Database_def)
qed

section \<open>The manifest on one line\<close>

text \<open>Pieces of \<open>split\<close>, and the first match of a pattern with lookbehind and lookahead,
  on a text built from its parts: for a manifest whose sheets section stands on one line,
  \<open>get_sheetnames\<close> returns the quoted names in the order of declaration.\<close>

lemma no_early_prefix:
  assumes "\<not> sublist sep (l @ butlast sep)" and "l \<noteq> []"
  shows "\<not> prefix sep (l @ sep @ rest)"
proof
  assume p: "prefix sep (l @ sep @ rest)"
  have "prefix (butlast sep) sep" by (rule prefixeq_butlast)
  then obtain zs where "sep = butlast sep @ zs" by (auto simp: prefix_def)
  then have "l @ sep @ rest = (l @ butlast sep) @ zs @ rest" by (metis append.assoc)
  then have q: "prefix (l @ butlast sep) (l @ sep @ rest)"
    by (metis prefixI)
  have "length sep \<le> length (l @ butlast sep)"
    using assms(2) by (cases l) auto
  from prefix_length_prefix [OF p q this] have "sublist sep (l @ butlast sep)"
    by (rule prefix_imp_sublist)
  with assms(1) show False by contradiction
qed

lemma split_piece:
  assumes "sep \<noteq> []" and "\<not> sublist sep (l @ butlast sep)"
  shows "split sep (l @ sep @ rest) = l # split sep rest"
  using assms(2)
proof (induction l)
  case Nil
  from assms(1) obtain c cs where s: "sep = c # cs" by (cases sep) auto
  then have "split sep (c # (cs @ rest)) = [] # split sep rest" by simp
  with s show ?case by simp
next
  case (Cons x l)
  from Cons.prems have n: "\<not> sublist sep (l @ butlast sep)"
    by (simp add: sublist_Cons_right)
  from no_early_prefix [OF Cons.prems, of rest] have "\<not> prefix sep (x # (l @ sep @ rest))"
    by simp
  with Cons.IH [OF n] show ?case by simp
qed

lemma split_concat:
  assumes "sep \<noteq> []" and "\<forall>l \<in> set ls. \<not> sublist sep (l @ butlast sep)"
  shows "split sep (concat (map (\<lambda>l. l @ sep) ls)) = ls @ [[]]"
  using assms(2)
proof (induction ls)
  case Nil
  then show ?case by simp
next
  case (Cons l ls)
  then have "split sep (l @ sep @ concat (map (\<lambda>l. l @ sep) ls)) = l # (ls @ [[]])"
    using split_piece [OF assms(1), of l] by simp
  then show ?case by simp
qed

lemma greedy_until_sound:
  "greedy_until cls s = Some r \<Longrightarrow>
   prefix cls (drop (length r) s) \<and> newline \<notin> set r \<and> prefix r s"
proof (induction s arbitrary: r)
  case Nil
  then show ?case by (auto split: if_splits)
next
  case (Cons c s)
  show ?case
  proof (cases "if c = newline then None else greedy_until cls s")
    case None
    with Cons.prems show ?thesis by (auto split: if_splits)
  next
    case (Some m)
    then have g: "greedy_until cls s = Some m" and c: "c \<noteq> newline"
      by (auto split: if_splits)
    from Some Cons.prems have r: "r = c # m" by simp
    from Cons.IH [OF g] c r show ?thesis by simp
  qed
qed

lemma greedy_until_some: "prefix cls s \<Longrightarrow> \<exists>r. greedy_until cls s = Some r"
  by (cases s) (auto split: option.splits)

lemma greedy_until_append:
  "newline \<notin> set m \<Longrightarrow> greedy_until cls rest = Some [] \<Longrightarrow>
   greedy_until cls (m @ rest) = Some m"
  by (induction m) auto

lemma prefix_takeWhile:
  "prefix r s \<Longrightarrow> \<forall>c \<in> set r. P c \<Longrightarrow> prefix r (takeWhile P s)"
  by (induction r arbitrary: s) (auto simp: prefix_def)

lemma greedy_until_last:
  assumes "newline \<notin> set cls"
    and "\<not> sublist cls (tl cls @ takeWhile (\<lambda>c. c \<noteq> newline) post)"
  shows "greedy_until cls (cls @ post) = Some []"
proof -
  from greedy_until_some [of cls "cls @ post"] obtain r
    where g: "greedy_until cls (cls @ post) = Some r" by auto
  have "r = []"
  proof (rule ccontr)
    assume ne: "r \<noteq> []"
    from greedy_until_sound [OF g] have
      p: "prefix cls (drop (length r) (cls @ post))" and nl: "newline \<notin> set r"
      and pr: "prefix r (cls @ post)" by auto
    from pr obtain t where t: "cls @ post = r @ t" by (auto simp: prefix_def)
    with p obtain u where u: "t = cls @ u" by (auto simp: prefix_def)
    have "prefix (r @ cls) (cls @ post)" using t u by (simp add: prefix_def)
    moreover have "\<forall>c \<in> set (r @ cls). c \<noteq> newline" using nl assms(1) by auto
    ultimately have "prefix (r @ cls) (takeWhile (\<lambda>c. c \<noteq> newline) (cls @ post))"
      by (rule prefix_takeWhile)
    moreover have "takeWhile (\<lambda>c. c \<noteq> newline) (cls @ post)
        = cls @ takeWhile (\<lambda>c. c \<noteq> newline) post"
      using assms(1) by (intro takeWhile_append2) auto
    ultimately obtain w where
      w: "cls @ takeWhile (\<lambda>c. c \<noteq> newline) post = r @ cls @ w"
      by (auto simp: prefix_def)
    from ne obtain x r' where r: "r = x # r'" by (cases r) auto
    from assms(2) have "cls \<noteq> []" by auto
    then have "tl (cls @ takeWhile (\<lambda>c. c \<noteq> newline) post)
        = tl cls @ takeWhile (\<lambda>c. c \<noteq> newline) post" by simp
    with w r have "tl cls @ takeWhile (\<lambda>c. c \<noteq> newline) post = r' @ cls @ w" by simp
    then have "sublist cls (tl cls @ takeWhile (\<lambda>c. c \<noteq> newline) post)"
      by (simp add: sublist_def) blast
    with assms(2) show False by contradiction
  qed
  with g show ?thesis by simp
qed

lemma search_between_skip:
  assumes "opn \<noteq> []" and "\<not> sublist opn (pre @ butlast opn)"
    and "greedy_until cls rest = Some m"
  shows "search_between opn cls (pre @ opn @ rest) = Some m"
  using assms(2)
proof (induction pre)
  case Nil
  from assms(1) obtain c cs where s: "opn = c # cs" by (cases opn) auto
  have "search_between opn cls (c # (cs @ rest)) = Some m"
    using assms(3) s by simp
  with s show ?case by simp
next
  case (Cons x pre)
  from Cons.prems have n: "\<not> sublist opn (pre @ butlast opn)"
    by (simp add: sublist_Cons_right)
  from no_early_prefix [OF Cons.prems, of rest] have "\<not> prefix opn (x # (pre @ opn @ rest))"
    by simp
  with Cons.IH [OF n] show ?case by simp
qed

lemma search_between_found:
  assumes "opn \<noteq> []" and "newline \<notin> set cls"
    and "\<not> sublist opn (pre @ butlast opn)"
    and "newline \<notin> set m"
    and "\<not> sublist cls (tl cls @ takeWhile (\<lambda>c. c \<noteq> newline) post)"
  shows "search_between opn cls (pre @ opn @ m @ cls @ post) = Some m"
proof -
  from greedy_until_last [OF assms(2,5)] assms(4)
  have "greedy_until cls (m @ cls @ post) = Some m"
    by (intro greedy_until_append)
  from search_between_skip [OF assms(1,3) this] show ?thesis .
qed

lemma sublist_single: "sublist [x] ys \<Longrightarrow> x \<in> set ys"
  using set_mono_sublist [of "[x]" ys] by simp

lemma split_sheet_line:
  "dquote \<notin> set a \<Longrightarrow> dquote \<notin> set name \<Longrightarrow>
   split [dquote] (sheet_line (a, name, b)) = a # name # split [dquote] b"
proof -
  assume a: "dquote \<notin> set a" and n: "dquote \<notin> set name"
  have 1: "\<not> sublist [dquote] (a @ butlast [dquote])" using a sublist_single by fastforce
  have 2: "\<not> sublist [dquote] (name @ butlast [dquote])" using n sublist_single by fastforce
  have "split [dquote] (a @ [dquote] @ name @ [dquote] @ b)
      = a # split [dquote] (name @ [dquote] @ b)"
    using 1 by (intro split_piece) simp_all
  also have "split [dquote] (name @ [dquote] @ b) = name # split [dquote] b"
    using 2 by (intro split_piece) simp_all
  finally show ?thesis by (simp add: sheet_line_def)
qed

lemma append_sheetnames_lines:
  "\<forall>(a, name, b) \<in> set decls. dquote \<notin> set a \<and> dquote \<notin> set name \<Longrightarrow>
   append_sheetnames sheetnames (map sheet_line decls)
     = Inr (sheetnames @ map (\<lambda>(a, name, b). name) decls)"
proof (induction decls arbitrary: sheetnames)
  case Nil
  then show ?case by simp
next
  case (Cons d decls)
  obtain a name b where d: "d = (a, name, b)" by (cases d) auto
  with Cons.prems have "split [dquote] (sheet_line d) = a # name # split [dquote] b"
    by (simp add: split_sheet_line)
  then have "getitem (split [dquote] (sheet_line d)) 1 = Inr name"
    by (simp add: getitem_def)
  with Cons.IH [of "sheetnames @ [name]"] Cons.prems d show ?case by simp
qed

lemma get_sheetnames_one_line:
  assumes "\<not> sublist ''<sheets>'' (pre @ ''<sheets'')"
    and "\<not> sublist ''</sheets>'' (''/sheets>'' @ takeWhile (\<lambda>c. c \<noteq> newline) post)"
    and "\<forall>(a, name, b) \<in> set decls. dquote \<notin> set a \<and> dquote \<notin> set name"
    and "\<forall>d \<in> set decls. newline \<notin> set (sheet_line d) \<and>
           \<not> sublist ''/>'' (sheet_line d @ ''/'')"
  shows "get_sheetnames
      (pre @ ''<sheets>'' @ concat (map (\<lambda>d. sheet_line d @ ''/>'') decls) @ ''</sheets>'' @ post)
    = Inr (map (\<lambda>(a, name, b). name) decls)"
proof -
  let ?sec = "concat (map (\<lambda>d. sheet_line d @ ''/>'') decls)"
  have nl: "newline \<notin> set ?sec"
    using assms(4) by (auto simp: newline_def)
  have s: "search_between ''<sheets>'' ''</sheets>''
      (pre @ ''<sheets>'' @ ?sec @ ''</sheets>'' @ post) = Some ?sec"
    using assms(1,2) nl by (intro search_between_found) (simp_all add: newline_def)
  have "?sec = concat (map (\<lambda>l. l @ ''/>'') (map sheet_line decls))"
    by (simp add: comp_def)
  moreover have "split ''/>'' (concat (map (\<lambda>l. l @ ''/>'') (map sheet_line decls)))
      = map sheet_line decls @ [[]]"
    using assms(4) by (intro split_concat) auto
  ultimately have "butlast (split ''/>'' ?sec) = map sheet_line decls"
    by simp
  with s append_sheetnames_lines [OF assms(3), of "[]"] show ?thesis
    by (simp add: get_sheetnames_def)
qed

section \<open>The cell address of a well-formed fragment\<close>

text \<open>On a well-formed fragment the pattern of the code finds the value of the attribute
  \<open>r\<close>.\<close>

lemma split_not_Nil: "split sep s \<noteq> []"
  by (induction sep s rule: split.induct) (auto split: list.splits)

lemma split_single:
  "split [c] s =
     (if c \<in> set s
      then takeWhile (\<lambda>x. x \<noteq> c) s # split [c] (tl (dropWhile (\<lambda>x. x \<noteq> c) s))
      else [s])"
proof (induction s)
  case Nil
  then show ?case by simp
next
  case (Cons x s)
  then show ?case using split_not_Nil [of "[c]" s]
    by (cases "split [c] s") auto
qed

lemma well_formed_cell_address:
  assumes "well_formed_cell frag"
  shows "search_cell_address frag = spec_cell_address frag \<and> spec_cell_address frag \<noteq> None"
proof -
  from assms obtain a b rest where f: "frag = dquote # a # b # rest"
    and a: "a \<notin> set [CHR ''<'', CHR ''r'', CHR '' '', CHR ''c'', CHR ''='', dquote]"
    and b: "b \<noteq> dquote" and r: "dquote \<in> set rest"
    by (auto simp: well_formed_cell_def split: list.splits)
  from a have a': "a \<noteq> dquote" by auto
  have s: "search_cell_address frag = Some (a # b # takeWhile (\<lambda>c. c \<noteq> dquote) rest)"
    using f a b by simp
  have m: "dquote \<in> set (a # b # rest)" using r by simp
  have "split [dquote] (a # b # rest) =
      takeWhile (\<lambda>x. x \<noteq> dquote) (a # b # rest) #
      split [dquote] (tl (dropWhile (\<lambda>x. x \<noteq> dquote) (a # b # rest)))"
    using m by (subst split_single) simp
  moreover have "takeWhile (\<lambda>x. x \<noteq> dquote) (a # b # rest) = a # b # takeWhile (\<lambda>x. x \<noteq> dquote) rest"
    using a' b by simp
  moreover obtain p ps where "split [dquote] (tl (dropWhile (\<lambda>x. x \<noteq> dquote) (a # b # rest))) = p # ps"
    using split_not_Nil [of "[dquote]"] by (meson list.exhaust)
  ultimately have "split [dquote] frag = [] # (a # b # takeWhile (\<lambda>x. x \<noteq> dquote) rest) # p # ps"
    using f by simp
  then have "spec_cell_address frag = Some (a # b # takeWhile (\<lambda>c. c \<noteq> dquote) rest)"
    by (simp add: spec_cell_address_def)
  with s show ?thesis by simp
qed

section \<open>A part that is not scraped ends the read\<close>



section \<open>Worksheet scraper\<close>

text \<open>
  Claim C3. Every cell fragment that the split on \<open><c r=\<close> produces is typed by the
  presence of \<open>t="s"\<close> in it: with the marker, the value is the entry of the table of
  shared strings at the integer that the value token denotes; without it, the value is the
  token itself. Every entry of the returned grid is the address and value of such a
  fragment.
\<close>

theorem scrape_cell_typing:
  assumes "scrape_worksheetxml text sharedString = Inr data"
    and "table = (case sharedString of None \<Rightarrow> [] | Some t \<Rightarrow> t)"
  shows \<open>\<exists>sec. search_between ''<sheetData>'' ''</sheetData>'' text = Some sec \<and>
     (\<forall>frag \<in> set (tl (split ''<c r='' sec)). \<exists>a v tok.
        scrape_cell table frag = Inr (a, v) \<and>
        search_between ''<v>'' ''</v>'' frag = Some tok \<and>
        (if sublist ''t="s"'' frag
         then \<exists>i. py_int tok = Some i \<and>
                map_of table i = Some v
         else v = tok)) \<and>
     (\<forall>(a, v) \<in> set data. \<exists>frag \<in> set (tl (split ''<c r='' sec)).
        scrape_cell table frag = Inr (a, v))\<close>
proof -
  define ss where "ss = table"
  from assms obtain sec where
    sec: "search_between ''<sheetData>'' ''</sheetData>'' text = Some sec"
    and cells: "scrape_cells ss [] (tl (split ''<c r='' sec)) = Inr data"
    by (auto simp: scrape_worksheetxml_def ss_def Let_def split: option.splits)
  have a: \<open>\<exists>a v tok. scrape_cell ss frag = Inr (a, v) \<and>
        search_between ''<v>'' ''</v>'' frag = Some tok \<and>
        (if sublist ''t="s"'' frag then \<exists>i. py_int tok = Some i \<and> map_of ss i = Some v
         else v = tok)\<close>
    if "frag \<in> set (tl (split ''<c r='' sec))" for frag
  proof -
    from scrape_cells_all_ok [OF cells that] obtain a v
      where c: "scrape_cell ss frag = Inr (a, v)" by blast
    from scrape_cell_value [OF c] c show ?thesis by blast
  qed
  have b: "\<exists>frag \<in> set (tl (split ''<c r='' sec)). scrape_cell ss frag = Inr (a, v)"
    if "(a, v) \<in> set data" for a v
    using scrape_cells_origin [OF cells that] by simp
  from sec a b show ?thesis unfolding ss_def by blast
qed

text \<open>The table Alice, Bob: the cell A1 with the marker and token 1 is Bob, the cell B2
  without the marker is the literal 42.\<close>

theorem scrape_cell_typing_witness:
  \<open>scrape_worksheetxml (worksheet_of ''<c r="A1" t="s"><v>1</v></c><c r="B2"><v>42</v></c>'')
      (Some names_table) = Inr [(''A1'', ''Bob''), (''B2'', ''42'')] \<and>
    (\<exists>frag tok. scrape_cell names_table frag = Inr (''A1'', ''Bob'') \<and>
        search_between ''<v>'' ''</v>'' frag = Some tok \<and>
        (if sublist ''t="s"'' frag
         then \<exists>i. py_int tok = Some i \<and> map_of names_table i = Some ''Bob''
         else ''Bob'' = tok))\<close>
proof -
  have h: \<open>scrape_worksheetxml (worksheet_of ''<c r="A1" t="s"><v>1</v></c><c r="B2"><v>42</v></c>'')
      (Some names_table) = Inr [(''A1'', ''Bob''), (''B2'', ''42'')]\<close>
    by code_simp
  have tb: "names_table = (case Some names_table of None \<Rightarrow> [] | Some t \<Rightarrow> t)" by simp
  note t = scrape_cell_typing [OF h tb, simplified]
  from t obtain sec where
    all: \<open>\<forall>frag \<in> set (tl (split ''<c r='' sec)). \<exists>a v tok.
        scrape_cell names_table frag = Inr (a, v) \<and>
        search_between ''<v>'' ''</v>'' frag = Some tok \<and>
        (if sublist ''t="s"'' frag
         then \<exists>i. py_int tok = Some i \<and> map_of names_table i = Some v
         else v = tok)\<close>
    and src: \<open>\<exists>frag \<in> set (tl (split ''<c r='' sec)).
        scrape_cell names_table frag = Inr (''A1'', ''Bob'')\<close>
    by blast
  from src obtain frag where f: \<open>frag \<in> set (tl (split ''<c r='' sec))\<close>
    and c: "scrape_cell names_table frag = Inr (''A1'', ''Bob'')" by blast
  from all f obtain a v tok where
    r: \<open>scrape_cell names_table frag = Inr (a, v) \<and>
        search_between ''<v>'' ''</v>'' frag = Some tok \<and>
        (if sublist ''t="s"'' frag
         then \<exists>i. py_int tok = Some i \<and> map_of names_table i = Some v
         else v = tok)\<close> by blast
  with c have "v = ''Bob''" by simp
  with r c h show ?thesis by blast
qed

text \<open>Counted by the key that the code takes from a fragment, the grid has one entry for
  each distinct key, and the last fragment of a key gives its value.\<close>

lemma scrape_grid_by_key:
  assumes "scrape_worksheetxml text sharedString = Inr data"
    and "table = (case sharedString of None \<Rightarrow> [] | Some t \<Rightarrow> t)"
  shows \<open>\<exists>sec. search_between ''<sheetData>'' ''</sheetData>'' text = Some sec \<and>
     length data = card (search_cell_address ` set (tl (split ''<c r='' sec))) \<and>
     distinct (map fst data) \<and>
     (\<forall>pre frag post a v.
        tl (split ''<c r='' sec) = pre @ frag # post \<and>
        scrape_cell table frag = Inr (a, v) \<and>
        Some a \<notin> search_cell_address ` set post
        \<longrightarrow> map_of data a = Some v)\<close>
proof -
  define ss where "ss = table"
  from assms obtain sec where
    sec: "search_between ''<sheetData>'' ''</sheetData>'' text = Some sec"
    and cells: "scrape_cells ss [] (tl (split ''<c r='' sec)) = Inr data"
    by (auto simp: scrape_worksheetxml_def ss_def Let_def split: option.splits)
  define frags where "frags = tl (split ''<c r='' sec)"
  have d: "distinct (map fst data)"
    using scrape_cells_distinct [OF cells] by simp
  have keys: "search_cell_address ` set frags = Some ` fst ` set data"
  proof (intro equalityI subsetI)
    fix x assume "x \<in> search_cell_address ` set frags"
    then obtain frag where f: "frag \<in> set frags" and x: "x = search_cell_address frag" by blast
    from scrape_cells_all_ok [OF cells] f obtain a v
      where c: "scrape_cell ss frag = Inr (a, v)" unfolding frags_def by blast
    with f have "a \<in> fst ` set data"
      using scrape_cells_keys [OF cells] unfolding frags_def by auto
    with x scrape_cell_address [OF c] show "x \<in> Some ` fst ` set data" by simp
  next
    fix x assume "x \<in> Some ` fst ` set data"
    then obtain a where a: "a \<in> fst ` set data" and x: "x = Some a" by blast
    from a scrape_cells_keys [OF cells] obtain frag v
      where "frag \<in> set frags" "scrape_cell ss frag = Inr (a, v)"
      unfolding frags_def by auto
    with x show "x \<in> search_cell_address ` set frags"
      using scrape_cell_address by force
  qed
  have "card (search_cell_address ` set frags) = card (fst ` set data)"
    unfolding keys by (simp add: card_image)
  also have "\<dots> = length data"
    using d distinct_card [of "map fst data"] by simp
  finally have n: "length data = card (search_cell_address ` set frags)" by simp
  have w: "map_of data a = Some v"
    if "frags = pre @ frag # post" "scrape_cell ss frag = Inr (a, v)"
       "Some a \<notin> search_cell_address ` set post" for pre frag post a v
  proof -
    have "\<forall>f \<in> set post. \<forall>w. scrape_cell ss f \<noteq> Inr (a, w)"
      using that(3) scrape_cell_address by force
    with scrape_cells_last_wins [of ss "[]" pre frag post data a v] cells that
    show ?thesis unfolding frags_def by simp
  qed
  from sec n d w show ?thesis unfolding ss_def frags_def by blast
qed

text \<open>
  Claim C4, as amended. For a worksheet part whose cell fragments are well formed (each
  starts with its quoted address, of at least two characters, the first of them none of
  \<open><\<close>, \<open>r\<close>, space, \<open>c\<close>, \<open>=\<close>), the grid that the scraper returns has as many
  entries as there are distinct values of the attribute \<open>r\<close> among the \<open><c r=\<close>
  declarations of the \<open>sheetData\<close> section, its keys are distinct, and the last
  declaration of an address gives its value.
\<close>

theorem scrape_grid_size:
  assumes "scrape_worksheetxml text sharedString = Inr data"
    and "table = (case sharedString of None \<Rightarrow> [] | Some t \<Rightarrow> t)"
  shows \<open>\<exists>sec. search_between ''<sheetData>'' ''</sheetData>'' text = Some sec \<and>
     ((\<forall>frag \<in> set (tl (split ''<c r='' sec)). well_formed_cell frag) \<longrightarrow>
        length data = card (spec_cell_address ` set (tl (split ''<c r='' sec))) \<and>
        distinct (map fst data) \<and>
        (\<forall>pre frag post a.
           tl (split ''<c r='' sec) = pre @ frag # post \<and>
           spec_cell_address frag = Some a \<and>
           Some a \<notin> spec_cell_address ` set post
           \<longrightarrow> (\<exists>v. scrape_cell table frag = Inr (a, v) \<and> map_of data a = Some v)))\<close>
proof -
  from scrape_grid_by_key [OF assms] obtain sec where
    sec: "search_between ''<sheetData>'' ''</sheetData>'' text = Some sec"
    and n: "length data = card (search_cell_address ` set (tl (split ''<c r='' sec)))"
    and d: "distinct (map fst data)"
    and w: "\<And>pre frag post a v.
        tl (split ''<c r='' sec) = pre @ frag # post \<Longrightarrow>
        scrape_cell table frag = Inr (a, v) \<Longrightarrow>
        Some a \<notin> search_cell_address ` set post \<Longrightarrow> map_of data a = Some v"
    by blast
  from assms sec have cells: "scrape_cells table [] (tl (split ''<c r='' sec)) = Inr data"
    by (auto simp: scrape_worksheetxml_def Let_def)
  define frags where "frags = tl (split ''<c r='' sec)"
  {
    assume wf: "\<forall>frag \<in> set frags. well_formed_cell frag"
    then have eq: "search_cell_address frag = spec_cell_address frag" if "frag \<in> set frags" for frag
      using that well_formed_cell_address by blast
    then have img: "search_cell_address ` set frags = spec_cell_address ` set frags"
      by (intro image_cong) auto
    have n': "length data = card (spec_cell_address ` set frags)"
      using n img unfolding frags_def by simp
    have w': "\<exists>v. scrape_cell table frag = Inr (a, v) \<and> map_of data a = Some v"
      if s: "frags = pre @ frag # post" and a: "spec_cell_address frag = Some a"
        and l: "Some a \<notin> spec_cell_address ` set post" for pre frag post a
    proof -
      from s have m: "frag \<in> set frags" by simp
      from scrape_cells_all_ok [OF cells] m obtain a' v
        where c: "scrape_cell table frag = Inr (a', v)" unfolding frags_def by blast
      from scrape_cell_address [OF c] eq [OF m] a have "a' = a" by simp
      have "search_cell_address ` set post = spec_cell_address ` set post"
        using s eq by (intro image_cong) auto
      with l have "Some a \<notin> search_cell_address ` set post" by simp
      with w [of pre frag post a v] s c \<open>a' = a\<close> show ?thesis
        unfolding frags_def by simp
    qed
    note n' d w'
  }
  with sec show ?thesis unfolding frags_def by blast
qed

text \<open>Three declarations, two of them for A10, the third for A11: the grid has two
  entries, and A10 holds the later value.\<close>

theorem scrape_grid_size_witness:
  \<open>scrape_worksheetxml (worksheet_of ''<c r="A10"><v>1</v></c><c r="A11"><v>7</v></c><c r="A10"><v>2</v></c>'')
      None = Inr [(''A10'', ''2''), (''A11'', ''7'')] \<and>
    card (spec_cell_address ` set [''"A10"><v>1</v></c>'', ''"A11"><v>7</v></c>'',
       ''"A10"><v>2</v></c></row>'']) = 2\<close>
proof -
  have h: \<open>scrape_worksheetxml (worksheet_of ''<c r="A10"><v>1</v></c><c r="A11"><v>7</v></c><c r="A10"><v>2</v></c>'')
      None = Inr [(''A10'', ''2''), (''A11'', ''7'')]\<close>
    by code_simp
  have tb: "[] = (case None of None \<Rightarrow> [] | Some t \<Rightarrow> t)" by simp
  have s: \<open>search_between ''<sheetData>'' ''</sheetData>''
      (worksheet_of ''<c r="A10"><v>1</v></c><c r="A11"><v>7</v></c><c r="A10"><v>2</v></c>'')
      = Some ''<row r="1"><c r="A10"><v>1</v></c><c r="A11"><v>7</v></c><c r="A10"><v>2</v></c></row>''\<close>
    by code_simp
  have f: \<open>tl (split ''<c r='' ''<row r="1"><c r="A10"><v>1</v></c><c r="A11"><v>7</v></c><c r="A10"><v>2</v></c></row>'')
      = [''"A10"><v>1</v></c>'', ''"A11"><v>7</v></c>'', ''"A10"><v>2</v></c></row>'']\<close>
    by code_simp
  have w1: \<open>well_formed_cell ''"A10"><v>1</v></c>''\<close> by code_simp
  have w2: \<open>well_formed_cell ''"A11"><v>7</v></c>''\<close> by code_simp
  have w3: \<open>well_formed_cell ''"A10"><v>2</v></c></row>''\<close> by code_simp
  from scrape_grid_size [OF h tb] s f w1 w2 w3 h show ?thesis by simp
qed

text \<open>Claim C4 as stated fails: the declarations of the addresses cr12 and rc12 are two,
  and the grid has the one entry 12.\<close>

theorem scrape_grid_size_counterexample:
  \<open>scrape_worksheetxml (worksheet_of ''<c r="cr12"><v>1</v></c><c r="rc12"><v>7</v></c>'') None
      = Inr [(''12'', ''7'')] \<and>
    search_between ''<sheetData>'' ''</sheetData>''
      (worksheet_of ''<c r="cr12"><v>1</v></c><c r="rc12"><v>7</v></c>'')
      = Some ''<row r="1"><c r="cr12"><v>1</v></c><c r="rc12"><v>7</v></c></row>'' \<and>
    map spec_cell_address
      (tl (split ''<c r='' ''<row r="1"><c r="cr12"><v>1</v></c><c r="rc12"><v>7</v></c></row>''))
      = [Some ''cr12'', Some ''rc12'']\<close>
  by code_simp





text \<open>
  Claim C10. A cell with the marker \<open>t="s"\<close> whose value token is no decimal integer
  literal for \<open>int()\<close> raises the \<open>ValueError\<close> of the conversion, whatever the
  table holds: the token is neither stored as a literal nor looked up, and a worksheet
  with such a cell is not scraped.
\<close>

theorem int_conversion_error:
  assumes \<open>sublist ''t="s"'' frag\<close>
    and "search_cell_address frag = Some a"
    and "search_between ''<v>'' ''</v>'' frag = Some tok"
    and "py_int tok = None"
  shows \<open>scrape_cell sharedString frag =
       Inl (ValueError (''invalid literal for int() with base 10: '' @ tok)) \<and>
     (search_between ''<sheetData>'' ''</sheetData>'' xml = Some sec \<and>
      tl (split ''<c r='' sec) = pre @ frag # post \<longrightarrow>
        (\<exists>e. scrape_worksheetxml xml (Some sharedString) = Inl e) \<and>
        ((\<forall>f \<in> set pre. \<exists>kv. scrape_cell sharedString f = Inr kv) \<longrightarrow>
           scrape_worksheetxml xml (Some sharedString) =
             Inl (ValueError (''invalid literal for int() with base 10: '' @ tok))))\<close>
proof -
  let ?e = "ValueError (''invalid literal for int() with base 10: '' @ tok)"
  have c: "scrape_cell sharedString frag = Inl ?e"
    using assms by (simp add: scrape_cell_def)
  have w: "\<exists>e. scrape_worksheetxml xml (Some sharedString) = Inl e"
    if "search_between ''<sheetData>'' ''</sheetData>'' xml = Some sec"
       "tl (split ''<c r='' sec) = pre @ frag # post"
    using that scrape_cells_fail_any [of frag "pre @ frag # post" sharedString _ "[]"] c
    by (simp add: scrape_worksheetxml_def)
  have f: "scrape_worksheetxml xml (Some sharedString) = Inl ?e"
    if "search_between ''<sheetData>'' ''</sheetData>'' xml = Some sec"
       "tl (split ''<c r='' sec) = pre @ frag # post"
       "\<forall>f \<in> set pre. \<exists>kv. scrape_cell sharedString f = Inr kv"
    using that scrape_cells_fail_first [of pre sharedString frag _ "[]" post] c
    by (simp add: scrape_worksheetxml_def)
  from c w f show ?thesis by blast
qed

text \<open>The token 1.5.\<close>

theorem int_conversion_error_witness:
  \<open>scrape_cell letters_table ''"A1" t="s"><v>1.5</v></c></row>''
      = Inl (ValueError ''invalid literal for int() with base 10: 1.5'') \<and>
    scrape_worksheetxml (worksheet_of ''<c r="A1" t="s"><v>1.5</v></c>'') (Some letters_table)
      = Inl (ValueError ''invalid literal for int() with base 10: 1.5'')\<close>
proof -
  have 1: \<open>sublist ''t="s"'' ''"A1" t="s"><v>1.5</v></c></row>''\<close> by code_simp
  have 2: \<open>search_cell_address ''"A1" t="s"><v>1.5</v></c></row>'' = Some ''A1''\<close> by code_simp
  have 3: \<open>search_between ''<v>'' ''</v>'' ''"A1" t="s"><v>1.5</v></c></row>'' = Some ''1.5''\<close>
    by code_simp
  have 4: "py_int ''1.5'' = None" by code_simp
  have 6: \<open>search_between ''<sheetData>'' ''</sheetData>''
      (worksheet_of ''<c r="A1" t="s"><v>1.5</v></c>'') = Some ''<row r="1"><c r="A1" t="s"><v>1.5</v></c></row>''\<close>
    by code_simp
  have 7: \<open>tl (split ''<c r='' ''<row r="1"><c r="A1" t="s"><v>1.5</v></c></row>'')
      = [] @ ''"A1" t="s"><v>1.5</v></c></row>'' # []\<close>
    by code_simp
  from int_conversion_error [OF 1 2 3 4,
      where xml = \<open>worksheet_of ''<c r="A1" t="s"><v>1.5</v></c>''\<close>
        and sec = \<open>''<row r="1"><c r="A1" t="s"><v>1.5</v></c></row>''\<close>
        and pre = "[]" and post = "[]" and sharedString = letters_table]
    6 7
  show ?thesis by simp
qed

section \<open>Database assembly\<close>

text \<open>\<open>readxl\<close> passes to the scraper the texts of selected entries only: two scrapers
  that agree on the texts of the entries with \<open>sheet\<close> in their name give the same
  result.\<close>

lemma readxl_zip_scrapes_selected_only:
  assumes "\<forall>name part. (name, part) \<in> set f_zip \<and> sublist ''sheet'' name
     \<longrightarrow> scrape part = scrape' part"
  shows "readxl_zip scrape f_zip sheetnames = readxl_zip scrape' f_zip sheetnames"
proof -
  have sel: "scrape_sheets scrape f_zip sharedString sh_names db i zips =
      scrape_sheets scrape' f_zip sharedString sh_names db i zips"
    if "set zips \<subseteq> set (get_zipsheetnames f_zip)" for zips sharedString sh_names db i
  proof (rule scrape_sheets_cong, intro ballI allI impI)
    fix z part assume "z \<in> set zips" "zip_open f_zip z = Inr part"
    with that assms get_zipsheetnames_keys [of z f_zip] zip_open_member [of f_zip z part]
    show "scrape part = scrape' part" by blast
  qed
  show ?thesis
    unfolding readxl_zip_def
    by (auto split: sum.splits if_splits intro!: sel dest: pop_sheetnames_subset)
qed

text \<open>
  Claim C9. Only worksheet parts are to be selected for scraping. The test of
  \<open>get_zipsheetnames\<close> is that \<open>sheet\<close> occurs in the name, and the relationships part
  \<open>xl/worksheets/_rels/sheet1.xml.rels\<close> passes it: in an archive with two declared
  sheets, their two worksheet parts and that part, it is selected as a third worksheet
  part, and the read of the workbook ends with \<open>IndexError\<close>.
\<close>

theorem get_zipsheetnames_selects_rels:
  "get_zipsheetnames book_rels =
     [''xl/worksheets/sheet1.xml'', ''xl/worksheets/sheet2.xml'',
      ''xl/worksheets/_rels/sheet1.xml.rels''] \<and>
   readxl (disk book_rels) scrape_xml ''book.xlsx'' [] = Inl IndexError"
  by code_simp


text \<open>
  Claim C2, as amended. \<open>readxl\<close> does not compare the number of declared sheet names
  with the number of worksheet parts. With no requested names: where the parts outnumber
  the names and the parts that have a name are scraped, the read fails with the
  \<open>IndexError\<close> of \<open>sh_names[i]\<close>; where the names outnumber the parts and every
  part is scraped, the read returns a database whose keys are the first names, as many as
  there are parts.
\<close>

theorem readxl_no_length_check:
  assumes "zip_open f_zip ''xl/workbook.xml'' = Inr workbook"
    and "get_sheetnames workbook = Inr sh_names"
    and "read_sharedString f_zip = Inr sharedString"
  shows "(length sh_names < length (get_zipsheetnames f_zip) \<and>
      (\<forall>z \<in> set (take (length sh_names) (get_zipsheetnames f_zip)).
          \<exists>text data. zip_open f_zip z = Inr text \<and> scrape text sharedString = Inr data)
      \<longrightarrow> readxl_zip scrape f_zip [] = Inl IndexError) \<and>
     (length (get_zipsheetnames f_zip) < length sh_names \<and>
      (\<forall>z \<in> set (get_zipsheetnames f_zip).
          \<exists>text data. zip_open f_zip z = Inr text \<and> scrape text sharedString = Inr data)
      \<longrightarrow> (\<exists>db. readxl_zip scrape f_zip [] = Inr db \<and>
            fst ` set db = set (take (length (get_zipsheetnames f_zip)) sh_names)))"
proof (intro conjI impI)
  have body: "readxl_zip scrape f_zip [] =
     scrape_sheets scrape f_zip sharedString sh_names Database 0 (get_zipsheetnames f_zip)"
    using assms by (simp add: readxl_zip_def)
  {
    assume a: "length sh_names < length (get_zipsheetnames f_zip) \<and>
      (\<forall>z \<in> set (take (length sh_names) (get_zipsheetnames f_zip)).
          \<exists>text data. zip_open f_zip z = Inr text \<and> scrape text sharedString = Inr data)"
    have "set (get_zipsheetnames f_zip) \<subseteq> fst ` set f_zip"
      using get_zipsheetnames_keys by blast
    with a show "readxl_zip scrape f_zip [] = Inl IndexError"
      unfolding body by (intro scrape_sheets_names_run_out) auto
  }
  {
    assume b: "length (get_zipsheetnames f_zip) < length sh_names \<and>
      (\<forall>z \<in> set (get_zipsheetnames f_zip).
          \<exists>text data. zip_open f_zip z = Inr text \<and> scrape text sharedString = Inr data)"
    then show "\<exists>db. readxl_zip scrape f_zip [] = Inr db \<and>
            fst ` set db = set (take (length (get_zipsheetnames f_zip)) sh_names)"
      unfolding body
      using scrape_sheets_ok [of "get_zipsheetnames f_zip" f_zip scrape sharedString 0 sh_names Database]
      by (simp add: Database_def)
  }
qed

text \<open>One name and two parts; two names and one part.\<close>

theorem readxl_no_length_check_witness:
  "readxl_zip scrape_xml book_1_2 [] = Inl IndexError \<and>
   (\<exists>db. readxl_zip scrape_xml book_2_1 [] = Inr db \<and> fst ` set db = {''Sheet1''})"
proof -
  have a1: "zip_open book_1_2 ''xl/workbook.xml'' = Inr workbook_of_1" by code_simp
  have a2: "get_sheetnames workbook_of_1 = Inr [''Sheet1'']" by code_simp
  have a3: "read_sharedString book_1_2 = Inr []" by code_simp
  have a4: "get_zipsheetnames book_1_2 = [''xl/worksheets/sheet1.xml'', ''xl/worksheets/sheet2.xml'']"
    by code_simp
  have a5: \<open>zip_open book_1_2 ''xl/worksheets/sheet1.xml'' = Inr (worksheet_of ''<c r="A1"><v>1</v></c>'')\<close>
    by code_simp
  have a6: \<open>scrape_xml (worksheet_of ''<c r="A1"><v>1</v></c>'') [] = Inr [(''A1'', ''1'')]\<close>
    by code_simp
  have b1: "zip_open book_2_1 ''xl/workbook.xml'' = Inr workbook_of_2" by code_simp
  have b2: "get_sheetnames workbook_of_2 = Inr [''Sheet1'', ''Sheet2'']" by code_simp
  have b3: "read_sharedString book_2_1 = Inr []" by code_simp
  have b4: "get_zipsheetnames book_2_1 = [''xl/worksheets/sheet1.xml'']" by code_simp
  have b5: \<open>zip_open book_2_1 ''xl/worksheets/sheet1.xml'' = Inr (worksheet_of ''<c r="A1"><v>1</v></c>'')\<close>
    by code_simp
  from readxl_no_length_check [OF a1 a2 a3, of scrape_xml] a4 a5 a6
  have A: "readxl_zip scrape_xml book_1_2 [] = Inl IndexError" by simp
  from readxl_no_length_check [OF b1 b2 b3, of scrape_xml] b4 b5 a6
  have B: "\<exists>db. readxl_zip scrape_xml book_2_1 [] = Inr db \<and> fst ` set db = {''Sheet1''}" by simp
  from A B show ?thesis by blast
qed

text \<open>Claim C2 as stated fails: the manifest declares two names, the archive holds one
  worksheet part, and the read returns a database.\<close>

theorem readxl_length_mismatch_counterexample:
  "get_sheetnames workbook_of_2 = Inr [''Sheet1'', ''Sheet2''] \<and>
   get_zipsheetnames book_2_1 = [''xl/worksheets/sheet1.xml''] \<and>
   readxl (disk book_2_1) scrape_xml ''book.xlsx'' [] = Inr [(''Sheet1'', [(''A1'', ''1'')])]"
  by code_simp

text \<open>
  Claim C1. For requested names that the manifest declares, the database is to hold
  exactly the requested sheets, each scraped from its own part. The loop over the
  requested names pops the part of each requested name instead of keeping it: for the
  request of Sheet2 out of three sheets, the database holds Sheet1 with the first part and
  Sheet2 with the third part.
\<close>

theorem readxl_requested_sheet_popped:
  "readxl (disk book_3_3) scrape_xml ''book.xlsx'' [''Sheet2''] =
     Inr [(''Sheet1'', [(''A1'', ''1'')]), (''Sheet2'', [(''A1'', ''3'')])]"
  by code_simp

text \<open>
  Claim C8. A requested name that the manifest does not declare is to end the read with
  the error of the missing sheet name. For the request of Sheet2, Sheet3 and Nope out of
  three sheets, the second \<open>pop\<close> is out of range, and the read ends with
  \<open>IndexError\<close> before the missing name is reached.
\<close>

theorem readxl_missing_name_after_pop:
  "readxl (disk book_3_3) scrape_xml ''book.xlsx'' [''Sheet2'', ''Sheet3'', ''Nope'']
     = Inl IndexError"
  by code_simp

section \<open>Manifest and shared strings\<close>

text \<open>
  Claim C6. A manifest that contains the markers of the sheets section is to give its
  sheet names in the order of declaration. The manifest with one sheet on one line gives
  its name; the same manifest with every element on a line of its own gives
  \<open>IndexError\<close>, since the pattern of the section does not match across a line feed.
\<close>

theorem get_sheetnames_line_feed:
  "get_sheetnames workbook_of_1 = Inr [''Sheet1''] \<and>
   get_sheetnames workbook_on_lines = Inl IndexError"
  by code_simp

text \<open>
  Claim C5. Each string between the tags \<open><t>\<close> and \<open></t>\<close> is to get the index of
  its rank. The part with the strings Alice and Bob gives the indices 0 and 1; in the part
  whose first string holds a line feed that string is skipped, and the second string
  gets the index 0. An archive without the part gives the empty table.
\<close>

theorem get_sharedStrings_line_feed:
  "get_sharedStrings shared_strings_xml = [(0, ''Alice''), (1, ''Bob'')] \<and>
   get_sharedStrings shared_strings_on_lines = [(0, ''c'')] \<and>
   read_sharedString book_3_3 = Inr []"
  by code_simp

end
